theory Spec2Isabelle
  imports Main "HOL-Library.AList"
begin

section \<open>Strings, exceptions and the Unicode tables behind \<open>str.isdigit\<close> and \<open>\d\<close>\<close>

text \<open>
  A Python \<open>str\<close> is a sequence of Unicode code points, and \<open>len\<close> counts code points.
  A string is therefore a list of code points; \<open>lit\<close> embeds an ASCII literal of the
  source.
\<close>

type_synonym pystr = "nat list"

definition lit :: "string \<Rightarrow> pystr" where
  "lit s = map of_char s"

text \<open>
  The exceptions that \<open>input_error\<close> names. Only the message of a \<open>ValueError\<close> is ever
  read (by \<open>f"Error: {e}"\<close>), so only that one carries its message.
\<close>

datatype error = IndexError | ValueError pystr | KeyError | AttributeError | TypeError

text \<open>\<open>sep.join(xs)\<close>.\<close>

fun join :: "pystr \<Rightarrow> pystr list \<Rightarrow> pystr" where
  "join sep [] = []"
| "join sep [x] = x"
| "join sep (x # y # ys) = x @ sep @ join sep (y # ys)"

text \<open>\<open>str(n)\<close> for a non-negative integer: its decimal digits.\<close>

fun str_nat :: "nat \<Rightarrow> pystr" where
  "str_nat n = (if n < 10 then [48 + n] else str_nat (n div 10) @ [48 + n mod 10])"

declare str_nat.simps [simp del]

definition in_ranges :: "(nat \<times> nat) list \<Rightarrow> nat \<Rightarrow> bool" where
  "in_ranges rs c = list_ex (\<lambda>(lo, hi). lo \<le> c \<and> c \<le> hi) rs"

text \<open>
  The code points \<open>c\<close> with \<open>chr(c).isdigit()\<close>, that is with Unicode property
  Numeric_Type=Digit or Numeric_Type=Decimal, as inclusive ranges (Unicode 14.0, the
  table of CPython 3.11). The first range is ASCII \<open>0\<close>..\<open>9\<close>; the next two are the
  superscripts U+00B2, U+00B3 and U+00B9.
\<close>

definition digit_ranges :: "(nat \<times> nat) list" where
  "digit_ranges = [
    (48, 57), (178, 179), (185, 185), (1632, 1641), (1776, 1785), (1984, 1993),
    (2406, 2415), (2534, 2543), (2662, 2671), (2790, 2799), (2918, 2927), (3046, 3055),
    (3174, 3183), (3302, 3311), (3430, 3439), (3558, 3567), (3664, 3673), (3792, 3801),
    (3872, 3881), (4160, 4169), (4240, 4249), (4969, 4977), (6112, 6121), (6160, 6169),
    (6470, 6479), (6608, 6618), (6784, 6793), (6800, 6809), (6992, 7001), (7088, 7097),
    (7232, 7241), (7248, 7257), (8304, 8304), (8308, 8313), (8320, 8329), (9312, 9320),
    (9332, 9340), (9352, 9360), (9450, 9450), (9461, 9469), (9471, 9471), (10102, 10110),
    (10112, 10120), (10122, 10130), (42528, 42537), (43216, 43225), (43264, 43273),
    (43472, 43481), (43504, 43513), (43600, 43609), (44016, 44025), (65296, 65305),
    (66720, 66729), (68160, 68163), (68912, 68921), (69216, 69224), (69714, 69722),
    (69734, 69743), (69872, 69881), (69942, 69951), (70096, 70105), (70384, 70393),
    (70736, 70745), (70864, 70873), (71248, 71257), (71360, 71369), (71472, 71481),
    (71904, 71913), (72016, 72025), (72784, 72793), (73040, 73049), (73120, 73129),
    (92768, 92777), (92864, 92873), (93008, 93017), (120782, 120831), (123200, 123209),
    (123632, 123641), (125264, 125273), (127232, 127242), (130032, 130041)]"

text \<open>
  The code points of general category Nd (\<open>str.isdecimal\<close>, and what \<open>\d\<close> matches in
  a \<open>str\<close> pattern). Every range starts at a digit of value 0 and runs through whole
  decades, so the value of a digit is its offset in the range modulo 10.
\<close>

definition decimal_ranges :: "(nat \<times> nat) list" where
  "decimal_ranges = [
    (48, 57), (1632, 1641), (1776, 1785), (1984, 1993), (2406, 2415), (2534, 2543),
    (2662, 2671), (2790, 2799), (2918, 2927), (3046, 3055), (3174, 3183), (3302, 3311),
    (3430, 3439), (3558, 3567), (3664, 3673), (3792, 3801), (3872, 3881), (4160, 4169),
    (4240, 4249), (6112, 6121), (6160, 6169), (6470, 6479), (6608, 6617), (6784, 6793),
    (6800, 6809), (6992, 7001), (7088, 7097), (7232, 7241), (7248, 7257), (42528, 42537),
    (43216, 43225), (43264, 43273), (43472, 43481), (43504, 43513), (43600, 43609),
    (44016, 44025), (65296, 65305), (66720, 66729), (68912, 68921), (69734, 69743),
    (69872, 69881), (69942, 69951), (70096, 70105), (70384, 70393), (70736, 70745),
    (70864, 70873), (71248, 71257), (71360, 71369), (71472, 71481), (71904, 71913),
    (72016, 72025), (72784, 72793), (73040, 73049), (73120, 73129), (92768, 92777),
    (92864, 92873), (93008, 93017), (120782, 120831), (123200, 123209), (123632, 123641),
    (125264, 125273), (130032, 130041)]"

definition is_decimal :: "nat \<Rightarrow> bool" where
  "is_decimal c = in_ranges decimal_ranges c"

definition decimal_value :: "nat \<Rightarrow> nat" where
  "decimal_value c =
     (case find (\<lambda>(lo, hi). lo \<le> c \<and> c \<le> hi) decimal_ranges of
        Some (lo, hi) \<Rightarrow> (c - lo) mod 10
      | None \<Rightarrow> 0)"

text \<open>\<open>str.isdigit\<close>: at least one character, and every character a digit.\<close>

definition isdigit :: "pystr \<Rightarrow> bool" where
  "isdigit s = (s \<noteq> [] \<and> list_all (in_ranges digit_ranges) s)"

section \<open>Fields\<close>

text \<open>
  \<open>Field\<close> and its subclasses wrap one attribute \<open>value\<close>. A \<open>Name\<close>, \<open>Phone\<close> or
  \<open>Birthday\<close> object is modelled by that value, and the constructor by the function
  that either raises or yields the value stored.
\<close>

definition Phone_validate :: "pystr \<Rightarrow> bool" where
  "Phone_validate v = (isdigit v \<and> length v = 10)"

definition invalid_phone_msg :: pystr where
  "invalid_phone_msg = lit ''Phone number must contain exactly 10 digits.''"

definition Phone_init :: "pystr \<Rightarrow> error + pystr" where
  "Phone_init v = (if \<not> Phone_validate v then Inl (ValueError invalid_phone_msg) else Inr v)"

section \<open>Dates\<close>

text \<open>
  \<open>datetime.date\<close>: year, month and day, valid by construction. The functions below
  follow CPython's \<open>_datetimemodule.c\<close>.
\<close>

record date =
  year :: int
  month :: int
  day :: int

definition is_leap :: "int \<Rightarrow> bool" where
  "is_leap y = (y mod 4 = 0 \<and> (y mod 100 \<noteq> 0 \<or> y mod 400 = 0))"

definition days_in_month :: "int \<Rightarrow> int \<Rightarrow> int" where
  "days_in_month y m =
     (if m = 2 \<and> is_leap y then 29
      else if m = 2 then 28
      else if m = 4 \<or> m = 6 \<or> m = 9 \<or> m = 11 then 30
      else 31)"

definition days_before_year :: "int \<Rightarrow> int" where
  "days_before_year y = (y - 1) * 365 + (y - 1) div 4 - (y - 1) div 100 + (y - 1) div 400"

definition days_before_month :: "int \<Rightarrow> int \<Rightarrow> int" where
  "days_before_month y m =
     [0, 0, 31, 59, 90, 120, 151, 181, 212, 243, 273, 304, 334] ! nat m
       + (if m > 2 \<and> is_leap y then 1 else 0)"

definition valid_date :: "date \<Rightarrow> bool" where
  "valid_date d =
     (1 \<le> year d \<and> year d \<le> 9999 \<and> 1 \<le> month d \<and> month d \<le> 12
       \<and> 1 \<le> day d \<and> day d \<le> days_in_month (year d) (month d))"

text \<open>
  \<open>date(y, m, d)\<close>: the range checks of \<open>check_date_args\<close>, in its order and with its
  messages.
\<close>

definition date_new :: "int \<Rightarrow> int \<Rightarrow> int \<Rightarrow> error + date" where
  "date_new y m d =
     (if y < 1 \<or> 9999 < y then
        Inl (ValueError (lit ''year '' @ (if y < 0 then lit ''-'' else []) @ str_nat (nat \<bar>y\<bar>)
                          @ lit '' is out of range''))
      else if m < 1 \<or> 12 < m then Inl (ValueError (lit ''month must be in 1..12''))
      else if d < 1 \<or> days_in_month y m < d then
        Inl (ValueError (lit ''day is out of range for month''))
      else Inr \<lparr>year = y, month = m, day = d\<rparr>)"

text \<open>\<open>d.replace(year=y)\<close> builds a new date from the new year and the old month and day.\<close>

definition replace_year :: "date \<Rightarrow> int \<Rightarrow> error + date" where
  "replace_year d y = date_new y (month d) (day d)"

text \<open>\<open>a < b\<close> on dates compares year, then month, then day.\<close>

definition date_lt :: "date \<Rightarrow> date \<Rightarrow> bool" where
  "date_lt a b =
     (year a < year b \<or> (year a = year b \<and> (month a < month b
        \<or> (month a = month b \<and> day a < day b))))"

definition toordinal :: "date \<Rightarrow> int" where
  "toordinal d = days_before_year (year d) + days_before_month (year d) (month d) + day d"

text \<open>\<open>(a - b).days\<close>.\<close>

definition days_between :: "date \<Rightarrow> date \<Rightarrow> int" where
  "days_between a b = toordinal a - toordinal b"

subsection \<open>\<open>strftime("%d.%m.%Y")\<close>\<close>

text \<open>
  \<open>%d\<close> and \<open>%m\<close> are two digits, zero-padded. \<open>%Y\<close> is handed to the C library: for
  a year below 1000 glibc prints it without leading zeros (CPython up to 3.12 on Linux
  gives \<open>'01.01.999'\<close>), other platforms print four digits. \<open>pad_year\<close> says which; from
  1000 on both agree.
\<close>

definition two_digits :: "int \<Rightarrow> pystr" where
  "two_digits n = [48 + nat n div 10, 48 + nat n mod 10]"

definition four_digits :: "int \<Rightarrow> pystr" where
  "four_digits n =
     [48 + nat n div 1000, 48 + nat n div 100 mod 10, 48 + nat n div 10 mod 10, 48 + nat n mod 10]"

definition strftime :: "bool \<Rightarrow> date \<Rightarrow> pystr" where
  "strftime pad_year d =
     two_digits (day d) @ lit ''.'' @ two_digits (month d) @ lit ''.''
       @ (if pad_year then four_digits (year d) else str_nat (nat (year d)))"

subsection \<open>\<open>strptime(s, "%d.%m.%Y")\<close>\<close>

text \<open>
  \<open>_strptime\<close> matches the string against
  \<^verbatim>\<open>(?P<d>3[0-1]|[1-2]\d|0[1-9]|[1-9]| [1-9])\.(?P<m>1[0-2]|0[1-9]|[1-9])\.(?P<Y>\d\d\d\d)\<close>
  at its start, refuses a match that leaves characters over, converts the three groups
  with \<open>int\<close> and builds the date. Each group function lists the ways its
  alternatives match a prefix, in the order the regex engine tries them, as pairs of the
  text captured and the text left. The texts of the \<open>ValueError\<close>s raised on a failed
  match are shortened (they quote the input): the one caller discards them.
\<close>

definition ascii_between :: "nat \<Rightarrow> nat \<Rightarrow> nat \<Rightarrow> bool" where
  "ascii_between lo hi c = (lo \<le> c \<and> c \<le> hi)"

definition re_d :: "pystr \<Rightarrow> (pystr \<times> pystr) list" where
  "re_d s =
     (case s of a # b # r \<Rightarrow>
        (if a = 51 \<and> ascii_between 48 49 b then [([a, b], r)] else [])
        @ (if ascii_between 49 50 a \<and> is_decimal b then [([a, b], r)] else [])
        @ (if a = 48 \<and> ascii_between 49 57 b then [([a, b], r)] else [])
      | _ \<Rightarrow> [])
     @ (case s of a # r \<Rightarrow> (if ascii_between 49 57 a then [([a], r)] else []) | _ \<Rightarrow> [])
     @ (case s of a # b # r \<Rightarrow>
          (if a = 32 \<and> ascii_between 49 57 b then [([a, b], r)] else [])
        | _ \<Rightarrow> [])"

definition re_m :: "pystr \<Rightarrow> (pystr \<times> pystr) list" where
  "re_m s =
     (case s of a # b # r \<Rightarrow>
        (if a = 49 \<and> ascii_between 48 50 b then [([a, b], r)] else [])
        @ (if a = 48 \<and> ascii_between 49 57 b then [([a, b], r)] else [])
      | _ \<Rightarrow> [])
     @ (case s of a # r \<Rightarrow> (if ascii_between 49 57 a then [([a], r)] else []) | _ \<Rightarrow> [])"

definition re_Y :: "pystr \<Rightarrow> (pystr \<times> pystr) option" where
  "re_Y s =
     (case s of a # b # c # d # r \<Rightarrow>
        (if is_decimal a \<and> is_decimal b \<and> is_decimal c \<and> is_decimal d
         then Some ([a, b, c, d], r) else None)
      | _ \<Rightarrow> None)"

definition re_dot :: "pystr \<Rightarrow> pystr option" where
  "re_dot s = (case s of a # r \<Rightarrow> (if a = 46 then Some r else None) | _ \<Rightarrow> None)"

text \<open>Ordered choice with backtracking: the first alternative whose continuation matches.\<close>

fun first_match :: "('a \<Rightarrow> 'b option) \<Rightarrow> 'a list \<Rightarrow> 'b option" where
  "first_match k [] = None"
| "first_match k (x # xs) = (case k x of Some r \<Rightarrow> Some r | None \<Rightarrow> first_match k xs)"

definition format_regex_match :: "pystr \<Rightarrow> ((pystr \<times> pystr \<times> pystr) \<times> pystr) option" where
  "format_regex_match s =
     first_match (\<lambda>(d, r1).
       case re_dot r1 of None \<Rightarrow> None
       | Some r2 \<Rightarrow>
           first_match (\<lambda>(m, r3).
             case re_dot r3 of None \<Rightarrow> None
             | Some r4 \<Rightarrow>
                 (case re_Y r4 of None \<Rightarrow> None
                  | Some (y, r5) \<Rightarrow> Some ((d, m, y), r5)))
           (re_m r2))
     (re_d s)"

text \<open>
  \<open>int\<close> on a captured group: a leading space (the last alternative of \<open>%d\<close>) is
  stripped, the digits are read in base 10.
\<close>

definition py_int :: "pystr \<Rightarrow> int" where
  "py_int s = int (foldl (\<lambda>acc c. 10 * acc + decimal_value c) 0 (dropWhile (\<lambda>c. c = 32) s))"

definition strptime :: "pystr \<Rightarrow> error + date" where
  "strptime s =
     (case format_regex_match s of
        None \<Rightarrow> Inl (ValueError (lit ''time data does not match format''))
      | Some ((d, m, y), rest) \<Rightarrow>
          if rest \<noteq> [] then Inl (ValueError (lit ''unconverted data remains''))
          else date_new (py_int y) (py_int m) (py_int d))"

text \<open>\<open>Birthday.__init__\<close>: every \<open>ValueError\<close> of \<open>strptime\<close> is replaced by one message.\<close>

definition invalid_date_msg :: pystr where
  "invalid_date_msg = lit ''Invalid date format. Use DD.MM.YYYY''"

definition Birthday_init :: "pystr \<Rightarrow> error + date" where
  "Birthday_init v =
     (case strptime v of
        Inl (ValueError m) \<Rightarrow> Inl (ValueError invalid_date_msg)
      | Inl e \<Rightarrow> Inl e
      | Inr d \<Rightarrow> Inr d)"

section \<open>Record\<close>

record Record =
  name :: pystr
  phones :: "pystr list"
  birthday :: "date option"

definition Record_init :: "pystr \<Rightarrow> Record" where
  "Record_init n = \<lparr>name = n, phones = [], birthday = None\<rparr>"

text \<open>
  A method that mutates \<open>self\<close> returns the record after the call next to its outcome;
  when it raises, the record returned is the record as the exception leaves it.
\<close>

definition add_phone :: "Record \<Rightarrow> pystr \<Rightarrow> (error + unit) \<times> Record" where
  "add_phone r phone =
     (case Phone_init phone of
        Inl e \<Rightarrow> (Inl e, r)
      | Inr p \<Rightarrow> (Inr (), r\<lparr>phones := phones r @ [p]\<rparr>))"

definition phone_not_found_msg :: "pystr \<Rightarrow> pystr" where
  "phone_not_found_msg old_phone = lit ''Phone '' @ old_phone @ lit '' not found.''"

text \<open>
  The loop of \<open>edit_phone\<close> over \<open>enumerate(self.phones)\<close>: \<open>i\<close> is the index of the
  head of the phones still to visit.
\<close>

fun edit_phone_loop :: "Record \<Rightarrow> pystr \<Rightarrow> pystr \<Rightarrow> nat \<Rightarrow> pystr list
    \<Rightarrow> (error + unit) \<times> Record" where
  "edit_phone_loop r old_phone new_phone i [] =
     (Inl (ValueError (phone_not_found_msg old_phone)), r)"
| "edit_phone_loop r old_phone new_phone i (p # ps) =
     (if p = old_phone then
        (case Phone_init new_phone of
           Inl e \<Rightarrow> (Inl e, r)
         | Inr v \<Rightarrow> (Inr (), r\<lparr>phones := (phones r)[i := v]\<rparr>))
      else edit_phone_loop r old_phone new_phone (Suc i) ps)"

definition edit_phone :: "Record \<Rightarrow> pystr \<Rightarrow> pystr \<Rightarrow> (error + unit) \<times> Record" where
  "edit_phone r old_phone new_phone = edit_phone_loop r old_phone new_phone 0 (phones r)"

definition remove_phone :: "Record \<Rightarrow> pystr \<Rightarrow> Record" where
  "remove_phone r phone = r\<lparr>phones := filter (\<lambda>p. p \<noteq> phone) (phones r)\<rparr>"

definition add_birthday :: "Record \<Rightarrow> pystr \<Rightarrow> (error + unit) \<times> Record" where
  "add_birthday r bday =
     (case Birthday_init bday of
        Inl e \<Rightarrow> (Inl e, r)
      | Inr d \<Rightarrow> (Inr (), r\<lparr>birthday := Some d\<rparr>))"

text \<open>
  The birthday moved to the year of \<open>today\<close>, and to the next year when that date is
  before \<open>today\<close>. Both \<open>replace\<close> calls can raise. The same three lines stand in
  \<open>days_to_birthday\<close> and in the loop of \<open>get_upcoming_birthdays\<close>.
\<close>

definition next_birthday :: "date \<Rightarrow> date \<Rightarrow> error + date" where
  "next_birthday b today =
     (case replace_year b (year today) of
        Inl e \<Rightarrow> Inl e
      | Inr nb \<Rightarrow> if date_lt nb today then replace_year nb (year today + 1) else Inr nb)"

text \<open>\<open>datetime.today().date()\<close> is the argument \<open>today\<close>.\<close>

definition days_to_birthday :: "Record \<Rightarrow> date \<Rightarrow> error + int option" where
  "days_to_birthday r today =
     (case birthday r of
        None \<Rightarrow> Inr None
      | Some b \<Rightarrow>
          (case next_birthday b today of
             Inl e \<Rightarrow> Inl e
           | Inr nb \<Rightarrow> Inr (Some (days_between nb today))))"

definition Record_str :: "bool \<Rightarrow> Record \<Rightarrow> pystr" where
  "Record_str pad_year r =
     name r @ lit '': phones: ['' @ join (lit '', '') (phones r) @ lit ''], birthday: ''
       @ (case birthday r of Some b \<Rightarrow> strftime pad_year b | None \<Rightarrow> lit ''N/A'')"

section \<open>AddressBook\<close>

text \<open>
  The \<open>dict\<close> behind the \<open>UserDict\<close>: an association list in insertion order. Storing
  under a key already present replaces the value where it stands, storing under a new
  key appends. The method \<open>find\<close> is \<open>find_record\<close> here.
\<close>

type_synonym AddressBook = "(pystr \<times> Record) list"

definition add_record :: "Record \<Rightarrow> AddressBook \<Rightarrow> AddressBook" where
  "add_record record book = AList.update (name record) record book"

definition find_record :: "AddressBook \<Rightarrow> pystr \<Rightarrow> Record option" where
  "find_record book n = map_of book n"

definition delete :: "pystr \<Rightarrow> AddressBook \<Rightarrow> AddressBook" where
  "delete n book = (if n \<in> fst ` set book then AList.delete n book else book)"

text \<open>
  The loop of \<open>get_upcoming_birthdays\<close> over \<open>self.data.values()\<close>, with the list
  \<open>upcoming\<close> built so far. An exception of \<open>replace\<close> ends the loop and the call.
\<close>

fun upcoming_loop :: "bool \<Rightarrow> date \<Rightarrow> Record list \<Rightarrow> (pystr \<times> pystr) list
    \<Rightarrow> error + (pystr \<times> pystr) list" where
  "upcoming_loop pad_year today [] upcoming = Inr upcoming"
| "upcoming_loop pad_year today (rec # recs) upcoming =
     (case birthday rec of
        None \<Rightarrow> upcoming_loop pad_year today recs upcoming
      | Some b \<Rightarrow>
          (case next_birthday b today of
             Inl e \<Rightarrow> Inl e
           | Inr nb \<Rightarrow>
               (let days = days_between nb today in
                upcoming_loop pad_year today recs
                  (if 0 \<le> days \<and> days \<le> 7
                   then upcoming @ [(name rec, strftime pad_year nb)] else upcoming))))"

definition get_upcoming_birthdays :: "bool \<Rightarrow> AddressBook \<Rightarrow> date
    \<Rightarrow> error + (pystr \<times> pystr) list" where
  "get_upcoming_birthdays pad_year book today = upcoming_loop pad_year today (map snd book) []"

section \<open>Command handlers\<close>

text \<open>
  A handler returns what it returns or raises, and the book as it leaves it: what it
  changed before raising stays changed. \<open>input_error\<close> turns the exception into the
  line printed. A record found by \<open>book.find(name)\<close> is the object stored under
  \<open>name\<close>, so mutating it is storing the mutated record under \<open>name\<close>. For a decorated
  handler \<open>f\<close>, \<open>f_func\<close> is the function as written and \<open>f\<close> the decorated one; the
  handler \<open>add_birthday\<close> is \<open>add_birthday_cmd\<close>, the name being taken by the method of
  \<open>Record\<close>.
\<close>

definition not_enough_arguments_msg :: pystr where
  "not_enough_arguments_msg = lit ''Error: Not enough arguments. Please check your command format.''"

definition input_error :: "(error + pystr) \<times> AddressBook \<Rightarrow> pystr \<times> AddressBook" where
  "input_error res =
     (case res of
        (Inr out, book) \<Rightarrow> (out, book)
      | (Inl IndexError, book) \<Rightarrow> (not_enough_arguments_msg, book)
      | (Inl (ValueError e), book) \<Rightarrow> (lit ''Error: '' @ e, book)
      | (Inl KeyError, book) \<Rightarrow> (lit ''Error: Contact not found.'', book)
      | (Inl AttributeError, book) \<Rightarrow> (lit ''Error: Contact not found. Please add it first.'', book)
      | (Inl TypeError, book) \<Rightarrow> (lit ''Error: Incorrect command format. Try again.'', book))"

text \<open>
  The messages of a failed unpacking: \<open>a, b, *_ = args\<close> wants at least \<open>n\<close> values,
  \<open>a, b = args\<close> wants exactly \<open>n\<close>.
\<close>

definition unpack_at_least_msg :: "nat \<Rightarrow> nat \<Rightarrow> pystr" where
  "unpack_at_least_msg n got =
     lit ''not enough values to unpack (expected at least '' @ str_nat n @ lit '', got ''
       @ str_nat got @ lit '')''"

definition unpack_exact_msg :: "nat \<Rightarrow> nat \<Rightarrow> pystr" where
  "unpack_exact_msg n got =
     (if got < n then
        lit ''not enough values to unpack (expected '' @ str_nat n @ lit '', got ''
          @ str_nat got @ lit '')''
      else lit ''too many values to unpack (expected '' @ str_nat n @ lit '')'')"

definition add_contact_func :: "pystr list \<Rightarrow> AddressBook \<Rightarrow> (error + pystr) \<times> AddressBook" where
  "add_contact_func args book =
     (case args of
        n # phone # _ \<Rightarrow>
          (let (record, book1, message) =
                 (case find_record book n of
                    None \<Rightarrow> (Record_init n, add_record (Record_init n) book, lit ''Contact added.'')
                  | Some r \<Rightarrow> (r, book, lit ''Contact updated.''))
           in if phone \<noteq> [] then
                (case add_phone record phone of
                   (Inl e, r') \<Rightarrow> (Inl e, AList.update n r' book1)
                 | (Inr u, r') \<Rightarrow> (Inr message, AList.update n r' book1))
              else (Inr message, book1))
      | _ \<Rightarrow> (Inl (ValueError (unpack_at_least_msg 2 (length args))), book))"

definition add_contact :: "pystr list \<Rightarrow> AddressBook \<Rightarrow> pystr \<times> AddressBook" where
  "add_contact args book = input_error (add_contact_func args book)"

definition change_contact_func :: "pystr list \<Rightarrow> AddressBook \<Rightarrow> (error + pystr) \<times> AddressBook" where
  "change_contact_func args book =
     (case args of
        n # old_phone # new_phone # _ \<Rightarrow>
          (case find_record book n of
             None \<Rightarrow> (Inl AttributeError, book)
           | Some record \<Rightarrow>
               (case edit_phone record old_phone new_phone of
                  (Inl e, r') \<Rightarrow> (Inl e, AList.update n r' book)
                | (Inr u, r') \<Rightarrow> (Inr (lit ''Phone updated.''), AList.update n r' book)))
      | _ \<Rightarrow> (Inl (ValueError (unpack_at_least_msg 3 (length args))), book))"

definition change_contact :: "pystr list \<Rightarrow> AddressBook \<Rightarrow> pystr \<times> AddressBook" where
  "change_contact args book = input_error (change_contact_func args book)"

definition show_phone_func :: "pystr list \<Rightarrow> AddressBook \<Rightarrow> (error + pystr) \<times> AddressBook" where
  "show_phone_func args book =
     (case args of
        [] \<Rightarrow> (Inl IndexError, book)
      | n # _ \<Rightarrow>
          (case find_record book n of
             None \<Rightarrow> (Inl AttributeError, book)
           | Some record \<Rightarrow> (Inr (join (lit '', '') (phones record)), book)))"

definition show_phone :: "pystr list \<Rightarrow> AddressBook \<Rightarrow> pystr \<times> AddressBook" where
  "show_phone args book = input_error (show_phone_func args book)"

definition show_all_func :: "bool \<Rightarrow> AddressBook \<Rightarrow> (error + pystr) \<times> AddressBook" where
  "show_all_func pad_year book =
     (if book = [] then (Inr (lit ''No contacts found.''), book)
      else (Inr (join [10] (map (Record_str pad_year) (map snd book))), book))"

definition show_all :: "bool \<Rightarrow> AddressBook \<Rightarrow> pystr \<times> AddressBook" where
  "show_all pad_year book = input_error (show_all_func pad_year book)"

definition add_birthday_func :: "pystr list \<Rightarrow> AddressBook \<Rightarrow> (error + pystr) \<times> AddressBook" where
  "add_birthday_func args book =
     (case args of
        [n, bday] \<Rightarrow>
          (let (record, book1) =
                 (case find_record book n of
                    None \<Rightarrow> (Record_init n, add_record (Record_init n) book)
                  | Some r \<Rightarrow> (r, book))
           in case add_birthday record bday of
                (Inl e, r') \<Rightarrow> (Inl e, AList.update n r' book1)
              | (Inr u, r') \<Rightarrow> (Inr (lit ''Birthday added for '' @ n), AList.update n r' book1))
      | _ \<Rightarrow> (Inl (ValueError (unpack_exact_msg 2 (length args))), book))"

definition add_birthday_cmd :: "pystr list \<Rightarrow> AddressBook \<Rightarrow> pystr \<times> AddressBook" where
  "add_birthday_cmd args book = input_error (add_birthday_func args book)"

definition show_birthday_func :: "bool \<Rightarrow> pystr list \<Rightarrow> AddressBook
    \<Rightarrow> (error + pystr) \<times> AddressBook" where
  "show_birthday_func pad_year args book =
     (case args of
        [] \<Rightarrow> (Inl IndexError, book)
      | n # _ \<Rightarrow>
          (case find_record book n of
             None \<Rightarrow> (Inl AttributeError, book)
           | Some record \<Rightarrow>
               (case birthday record of
                  None \<Rightarrow> (Inl AttributeError, book)
                | Some b \<Rightarrow> (Inr (strftime pad_year b), book))))"

definition show_birthday :: "bool \<Rightarrow> pystr list \<Rightarrow> AddressBook \<Rightarrow> pystr \<times> AddressBook" where
  "show_birthday pad_year args book = input_error (show_birthday_func pad_year args book)"

definition birthdays_func :: "bool \<Rightarrow> date \<Rightarrow> pystr list \<Rightarrow> AddressBook
    \<Rightarrow> (error + pystr) \<times> AddressBook" where
  "birthdays_func pad_year today args book =
     (case get_upcoming_birthdays pad_year book today of
        Inl e \<Rightarrow> (Inl e, book)
      | Inr upcoming \<Rightarrow>
          if upcoming = [] then (Inr (lit ''No birthdays in the next week.''), book)
          else (Inr (join [10] (map (\<lambda>(n, bday). n @ lit '': '' @ bday) upcoming)), book))"

definition birthdays :: "bool \<Rightarrow> date \<Rightarrow> pystr list \<Rightarrow> AddressBook \<Rightarrow> pystr \<times> AddressBook" where
  "birthdays pad_year today args book = input_error (birthdays_func pad_year today args book)"







text \<open>
  One round of the loop of \<open>main\<close> after \<open>parse_input\<close>: the line printed, the book, and
  whether the loop goes on.
\<close>

definition main_step :: "bool \<Rightarrow> date \<Rightarrow> pystr \<Rightarrow> pystr list \<Rightarrow> AddressBook
    \<Rightarrow> (pystr \<times> AddressBook) \<times> bool" where
  "main_step pad_year today command args book =
     (if command = lit ''close'' \<or> command = lit ''exit'' then ((lit ''Good bye!'', book), False)
      else if command = lit ''hello'' then ((lit ''How can I help you?'', book), True)
      else if command = lit ''add'' then (add_contact args book, True)
      else if command = lit ''change'' then (change_contact args book, True)
      else if command = lit ''phone'' then (show_phone args book, True)
      else if command = lit ''all'' then (show_all pad_year book, True)
      else if command = lit ''add-birthday'' then (add_birthday_cmd args book, True)
      else if command = lit ''show-birthday'' then (show_birthday pad_year args book, True)
      else if command = lit ''birthdays'' then (birthdays pad_year today args book, True)
      else ((lit ''Invalid command. Try again.'', book), True))"

section \<open>Notions of the specification\<close>

text \<open>
  The specification speaks of strings of ASCII digits, of strings ``matching
  \<open>DD.MM.YYYY\<close>'' that denote a real calendar date, and of the address books reachable
  by adding and deleting records. These definitions follow its words; the claims below
  compare them with the code.
\<close>

definition ascii_digit :: "nat \<Rightarrow> bool" where
  "ascii_digit c = (48 \<le> c \<and> c \<le> 57)"

definition ascii_digit_string :: "pystr \<Rightarrow> bool" where
  "ascii_digit_string s = list_all ascii_digit s"

definition digit_val :: "nat \<Rightarrow> int" where
  "digit_val c = int c - 48"

text \<open>
  Two digits, a dot, two digits, a dot, four digits, read as day, month and year; the
  date they denote, when there is such a day in the calendar.
\<close>

definition denoted_date :: "pystr \<Rightarrow> date option" where
  "denoted_date s =
     (case s of
        [d1, d2, p1, m1, m2, p2, y1, y2, y3, y4] \<Rightarrow>
          if p1 = 46 \<and> p2 = 46 \<and> list_all ascii_digit [d1, d2, m1, m2, y1, y2, y3, y4] then
            (let dt = \<lparr>year = 1000 * digit_val y1 + 100 * digit_val y2 + 10 * digit_val y3
                              + digit_val y4,
                       month = 10 * digit_val m1 + digit_val m2,
                       day = 10 * digit_val d1 + digit_val d2\<rparr>
             in if valid_date dt then Some dt else None)
          else None
      | _ \<Rightarrow> None)"

text \<open>
  What a record contributes to the upcoming birthdays: its name and the date of the next
  birthday, when it has a birthday whose next occurrence is 0 to 7 days away.
\<close>

definition upcoming_entry :: "bool \<Rightarrow> date \<Rightarrow> Record \<Rightarrow> (pystr \<times> pystr) option" where
  "upcoming_entry pad_year today r =
     (case birthday r of
        None \<Rightarrow> None
      | Some b \<Rightarrow>
          (case next_birthday b today of
             Inl e \<Rightarrow> None
           | Inr nb \<Rightarrow>
               if 0 \<le> days_between nb today \<and> days_between nb today \<le> 7
               then Some (name r, strftime pad_year nb) else None))"

text \<open>A book is reachable when calls of \<open>add_record\<close> and \<open>delete\<close> build it from the empty book.\<close>

datatype book_op = AddRecord Record | Delete pystr

fun apply_ops :: "book_op list \<Rightarrow> AddressBook \<Rightarrow> AddressBook" where
  "apply_ops [] book = book"
| "apply_ops (AddRecord record # ops) book = apply_ops ops (add_record record book)"
| "apply_ops (Delete n # ops) book = apply_ops ops (delete n book)"

section \<open>Phone validation\<close>

lemma ascii_digit_in_ranges: "ascii_digit c \<Longrightarrow> in_ranges digit_ranges c"
  by (simp add: ascii_digit_def in_ranges_def digit_ranges_def)

lemma Phone_validate_iff:
  "Phone_validate s \<longleftrightarrow> length s = 10 \<and> (\<forall>c \<in> set s. in_ranges digit_ranges c)"
  by (auto simp: Phone_validate_def isdigit_def list_all_iff)

text \<open>
  C1, as the code has it. \<open>Phone(s)\<close> succeeds exactly when \<open>s\<close> has ten characters that
  \<open>str.isdigit\<close> accepts, which are the ASCII digits and the other Unicode digits of
  \<open>digit_ranges\<close>. A string of another length or with a character outside
  \<open>digit_ranges\<close> raises the \<open>ValueError\<close> of the phone validation, and every string of
  ten ASCII digits is accepted.
\<close>

theorem Phone_init_isdigit:
  "(Phone_init s = Inr s \<longleftrightarrow> length s = 10 \<and> (\<forall>c \<in> set s. in_ranges digit_ranges c))
   \<and> (length s \<noteq> 10 \<or> (\<exists>c \<in> set s. \<not> in_ranges digit_ranges c)
        \<longrightarrow> Phone_init s = Inl (ValueError invalid_phone_msg))
   \<and> (length s = 10 \<and> ascii_digit_string s \<longrightarrow> Phone_init s = Inr s)"
  by (auto simp: Phone_init_def Phone_validate_iff ascii_digit_string_def list_all_iff
      intro: ascii_digit_in_ranges)

theorem Phone_init_isdigit_witness:
  "length (lit ''1234567890'') = 10 \<and> ascii_digit_string (lit ''1234567890'')
   \<and> Phone_init (lit ''1234567890'') = Inr (lit ''1234567890'')
   \<and> length (lit ''12345'') \<noteq> 10
   \<and> Phone_init (lit ''12345'') = Inl (ValueError invalid_phone_msg)
   \<and> \<not> in_ranges digit_ranges 97
   \<and> Phone_init (lit ''12345abcde'') = Inl (ValueError invalid_phone_msg)"
  using Phone_init_isdigit [of "lit ''1234567890''"] Phone_init_isdigit [of "lit ''12345''"]
    Phone_init_isdigit [of "lit ''12345abcde''"]
  by (simp add: lit_def ascii_digit_string_def ascii_digit_def in_ranges_def digit_ranges_def)

text \<open>
  C1 as stated fails: the ten Arabic-Indic digits U+0661 .. U+0669, U+0660 are not
  ASCII digits, and \<open>Phone\<close> accepts them.
\<close>

theorem Phone_init_ascii_counterexample:
  "Phone_init [1633, 1634, 1635, 1636, 1637, 1638, 1639, 1640, 1641, 1632]
     = Inr [1633, 1634, 1635, 1636, 1637, 1638, 1639, 1640, 1641, 1632]
   \<and> \<not> ascii_digit_string [1633, 1634, 1635, 1636, 1637, 1638, 1639, 1640, 1641, 1632]"
  by (simp add: Phone_init_def Phone_validate_def isdigit_def in_ranges_def digit_ranges_def
      ascii_digit_string_def ascii_digit_def)

section \<open>Editing a phone\<close>

lemma edit_phone_loop_absent:
  "old_phone \<notin> set ps \<Longrightarrow>
   edit_phone_loop r old_phone new_phone i ps
     = (Inl (ValueError (phone_not_found_msg old_phone)), r)"
  by (induction ps arbitrary: i) auto

lemma edit_phone_loop_first:
  "old_phone \<notin> set pre \<Longrightarrow>
   edit_phone_loop r old_phone new_phone i (pre @ old_phone # post)
     = (case Phone_init new_phone of
          Inl e \<Rightarrow> (Inl e, r)
        | Inr v \<Rightarrow> (Inr (), r\<lparr>phones := (phones r)[i + length pre := v]\<rparr>))"
  by (induction pre arbitrary: i) (auto split: sum.splits)

lemma edit_phone_absent:
  "old_phone \<notin> set (phones r) \<Longrightarrow>
   edit_phone r old_phone new_phone = (Inl (ValueError (phone_not_found_msg old_phone)), r)"
  by (simp add: edit_phone_def edit_phone_loop_absent)

lemma edit_phone_present:
  assumes "phones r = pre @ old_phone # post" "old_phone \<notin> set pre"
  shows "edit_phone r old_phone new_phone
     = (if Phone_validate new_phone then (Inr (), r\<lparr>phones := pre @ new_phone # post\<rparr>)
        else (Inl (ValueError invalid_phone_msg), r))"
  using assms by (simp add: edit_phone_def edit_phone_loop_first Phone_init_def)

lemma not_found_neq_invalid: "phone_not_found_msg old_phone \<noteq> invalid_phone_msg"
proof
  assume eq: "phone_not_found_msg old_phone = invalid_phone_msg"
  have "last (butlast (phone_not_found_msg old_phone)) = 100"
    by (simp add: phone_not_found_msg_def lit_def butlast_append last_append)
  moreover have "last (butlast invalid_phone_msg) = 115"
    by (simp add: invalid_phone_msg_def lit_def)
  ultimately show False using eq by simp
qed

text \<open>
  C5. \<open>edit_phone\<close> looks for the first phone equal to \<open>old_phone\<close>. When there is
  none it fails with ``not found''. When there is one and \<open>new_phone\<close> passes the
  validation, that phone alone is replaced by \<open>new_phone\<close>. When there is one and
  \<open>new_phone\<close> fails the validation, it fails with the \<open>ValueError\<close> of the phone
  validation.
\<close>

theorem edit_phone_first_match:
  "(old_phone \<notin> set (phones r) \<longrightarrow>
      edit_phone r old_phone new_phone = (Inl (ValueError (phone_not_found_msg old_phone)), r))
   \<and> (phones r = pre @ old_phone # post \<and> old_phone \<notin> set pre \<and> Phone_validate new_phone \<longrightarrow>
      edit_phone r old_phone new_phone = (Inr (), r\<lparr>phones := pre @ new_phone # post\<rparr>))
   \<and> (old_phone \<in> set (phones r) \<and> \<not> Phone_validate new_phone \<longrightarrow>
      edit_phone r old_phone new_phone = (Inl (ValueError invalid_phone_msg), r))"
proof (intro conjI impI)
  assume "old_phone \<notin> set (phones r)"
  then show "edit_phone r old_phone new_phone
      = (Inl (ValueError (phone_not_found_msg old_phone)), r)"
    by (rule edit_phone_absent)
next
  assume "phones r = pre @ old_phone # post \<and> old_phone \<notin> set pre \<and> Phone_validate new_phone"
  then show "edit_phone r old_phone new_phone = (Inr (), r\<lparr>phones := pre @ new_phone # post\<rparr>)"
    by (simp add: edit_phone_present)
next
  assume a: "old_phone \<in> set (phones r) \<and> \<not> Phone_validate new_phone"
  then obtain pre post where "phones r = pre @ old_phone # post" "old_phone \<notin> set pre"
    by (meson split_list_first)
  with a show "edit_phone r old_phone new_phone = (Inl (ValueError invalid_phone_msg), r)"
    by (simp add: edit_phone_present)
qed

theorem edit_phone_first_match_witness:
  "phones (Record_init (lit ''ann'')\<lparr>phones := [lit ''1111111111'']\<rparr>) = [] @ lit ''1111111111'' # []
   \<and> lit ''1111111111'' \<notin> set [] \<and> Phone_validate (lit ''2222222222'')
   \<and> edit_phone (Record_init (lit ''ann'')\<lparr>phones := [lit ''1111111111'']\<rparr>)
        (lit ''1111111111'') (lit ''2222222222'')
      = (Inr (), Record_init (lit ''ann'')\<lparr>phones := [lit ''2222222222'']\<rparr>)
   \<and> lit ''9999999999'' \<notin> set (phones (Record_init (lit ''ann'')\<lparr>phones := [lit ''1111111111'']\<rparr>))
   \<and> edit_phone (Record_init (lit ''ann'')\<lparr>phones := [lit ''1111111111'']\<rparr>)
        (lit ''9999999999'') (lit ''2222222222'')
      = (Inl (ValueError (phone_not_found_msg (lit ''9999999999''))),
         Record_init (lit ''ann'')\<lparr>phones := [lit ''1111111111'']\<rparr>)
   \<and> \<not> Phone_validate (lit ''22'')
   \<and> edit_phone (Record_init (lit ''ann'')\<lparr>phones := [lit ''1111111111'']\<rparr>)
        (lit ''1111111111'') (lit ''22'')
      = (Inl (ValueError invalid_phone_msg), Record_init (lit ''ann'')\<lparr>phones := [lit ''1111111111'']\<rparr>)"
proof -
  have v: "Phone_validate (lit ''2222222222'')" "\<not> Phone_validate (lit ''22'')"
    by (simp_all add: Phone_validate_def isdigit_def lit_def in_ranges_def digit_ranges_def)
  have n: "lit ''9999999999'' \<noteq> lit ''1111111111''"
    by (simp add: lit_def)
  show ?thesis
    using v n
      edit_phone_first_match [of "lit ''1111111111''"
        "Record_init (lit ''ann'')\<lparr>phones := [lit ''1111111111'']\<rparr>" "lit ''2222222222''" "[]" "[]"]
      edit_phone_first_match [of "lit ''9999999999''"
        "Record_init (lit ''ann'')\<lparr>phones := [lit ''1111111111'']\<rparr>" "lit ''2222222222''" "[]" "[]"]
      edit_phone_first_match [of "lit ''1111111111''"
        "Record_init (lit ''ann'')\<lparr>phones := [lit ''1111111111'']\<rparr>" "lit ''22''" "[]" "[]"]
    by (simp add: Record_init_def)
qed

text \<open>
  C9. A failing \<open>edit_phone\<close> leaves the record as it was. It fails exactly when no
  phone equals \<open>old_phone\<close> or \<open>new_phone\<close> is invalid, and when no phone equals
  \<open>old_phone\<close> the error is ``not found'', a message different from that of the
  validation, also for an invalid \<open>new_phone\<close>.
\<close>

theorem edit_phone_failure_unchanged:
  "(\<forall>e. fst (edit_phone r old_phone new_phone) = Inl e \<longrightarrow>
        snd (edit_phone r old_phone new_phone) = r)
   \<and> ((\<exists>e. fst (edit_phone r old_phone new_phone) = Inl e) \<longleftrightarrow>
        old_phone \<notin> set (phones r) \<or> \<not> Phone_validate new_phone)
   \<and> (old_phone \<notin> set (phones r) \<longrightarrow>
        fst (edit_phone r old_phone new_phone) = Inl (ValueError (phone_not_found_msg old_phone)))
   \<and> phone_not_found_msg old_phone \<noteq> invalid_phone_msg"
proof (cases "old_phone \<in> set (phones r)")
  case False
  then show ?thesis
    by (simp add: edit_phone_absent not_found_neq_invalid)
next
  case True
  then obtain pre post where "phones r = pre @ old_phone # post" "old_phone \<notin> set pre"
    by (meson split_list_first)
  then show ?thesis
    using True by (simp add: edit_phone_present not_found_neq_invalid)
qed

theorem edit_phone_failure_unchanged_witness:
  "lit ''9999999999'' \<notin> set (phones (Record_init (lit ''ann'')\<lparr>phones := [lit ''1111111111'']\<rparr>))
   \<and> \<not> Phone_validate (lit ''22'')
   \<and> fst (edit_phone (Record_init (lit ''ann'')\<lparr>phones := [lit ''1111111111'']\<rparr>)
        (lit ''9999999999'') (lit ''22''))
      = Inl (ValueError (phone_not_found_msg (lit ''9999999999'')))
   \<and> snd (edit_phone (Record_init (lit ''ann'')\<lparr>phones := [lit ''1111111111'']\<rparr>)
        (lit ''9999999999'') (lit ''22''))
      = Record_init (lit ''ann'')\<lparr>phones := [lit ''1111111111'']\<rparr>"
proof -
  have v: "\<not> Phone_validate (lit ''22'')"
    by (simp add: Phone_validate_def isdigit_def lit_def)
  have n: "lit ''9999999999'' \<notin> set (phones (Record_init (lit ''ann'')\<lparr>phones := [lit ''1111111111'']\<rparr>))"
    by (simp add: lit_def)
  show ?thesis
    using v n
      edit_phone_failure_unchanged [of "Record_init (lit ''ann'')\<lparr>phones := [lit ''1111111111'']\<rparr>"
        "lit ''9999999999''" "lit ''22''"]
    by blast
qed

section \<open>Ordinals follow the order of dates\<close>

lemma div_step:
  fixes y k :: int
  assumes "0 < k"
  shows "y div k = (y - 1) div k + (if y mod k = 0 then 1 else 0)"
proof (cases "y mod k = 0")
  case True
  then have "k * (y div k) = y" by (simp add: mod_eq_0_iff_dvd)
  then have "y - 1 = k * (y div k - 1) + (k - 1)"
    by (simp add: algebra_simps)
  then have "(y - 1) div k = y div k - 1"
    using assms by (intro int_div_pos_eq [where r = "k - 1"]) auto
  with True show ?thesis by simp
next
  case False
  have "0 \<le> y mod k" "y mod k < k" using assms by simp_all
  have "y - 1 = k * (y div k) + (y mod k - 1)"
    by (simp add: algebra_simps)
  then have "(y - 1) div k = y div k"
    using assms False \<open>0 \<le> y mod k\<close> \<open>y mod k < k\<close>
    by (intro int_div_pos_eq [where r = "y mod k - 1"]) auto
  with False show ?thesis by simp
qed

lemma mod_400_100: "(y::int) mod 400 = 0 \<Longrightarrow> y mod 100 = 0"
  using mod_mod_cancel [of 100 400 y] by simp

lemma mod_100_4: "(y::int) mod 100 = 0 \<Longrightarrow> y mod 4 = 0"
  using mod_mod_cancel [of 4 100 y] by simp

lemma leap_step_arith:
  fixes A B C y :: int
  assumes "p400 \<Longrightarrow> p100" "p100 \<Longrightarrow> p4"
  shows "y * 365 + (A + (if p4 then 1 else 0)) - (B + (if p100 then 1 else 0))
           + (C + (if p400 then 1 else 0))
         = (y - 1) * 365 + A - B + C + 365 + (if p4 \<and> (\<not> p100 \<or> p400) then 1 else 0)"
  using assms by (cases p4; cases p100; cases p400) (simp_all add: algebra_simps)

text \<open>A year has 365 days, and one more when it is a leap year.\<close>

lemma days_before_year_Suc:
  "days_before_year (y + 1) = days_before_year y + 365 + (if is_leap y then 1 else 0)"
proof -
  have a: "y div 4 = (y - 1) div 4 + (if y mod 4 = 0 then 1 else 0)"
    by (rule div_step) simp
  have b: "y div 100 = (y - 1) div 100 + (if y mod 100 = 0 then 1 else 0)"
    by (rule div_step) simp
  have c: "y div 400 = (y - 1) div 400 + (if y mod 400 = 0 then 1 else 0)"
    by (rule div_step) simp
  have d: "days_before_year (y + 1) = y * 365 + y div 4 - y div 100 + y div 400"
    by (simp add: days_before_year_def)
  have e: "is_leap y \<longleftrightarrow> y mod 4 = 0 \<and> (\<not> y mod 100 = 0 \<or> y mod 400 = 0)"
    by (simp only: is_leap_def)
  have "days_before_year (y + 1)
      = y * 365 + ((y - 1) div 4 + (if y mod 4 = 0 then 1 else 0))
          - ((y - 1) div 100 + (if y mod 100 = 0 then 1 else 0))
          + ((y - 1) div 400 + (if y mod 400 = 0 then 1 else 0))"
    by (simp only: d a [symmetric] b [symmetric] c [symmetric])
  also have "\<dots> = (y - 1) * 365 + (y - 1) div 4 - (y - 1) div 100 + (y - 1) div 400 + 365
      + (if y mod 4 = 0 \<and> (\<not> y mod 100 = 0 \<or> y mod 400 = 0) then 1 else 0)"
    by (rule leap_step_arith) (erule mod_400_100, erule mod_100_4)
  finally show ?thesis
    by (simp only: e days_before_year_def)
qed

lemma days_before_year_mono: "y \<le> y' \<Longrightarrow> days_before_year y \<le> days_before_year y'"
proof (induction y' rule: int_ge_induct)
  case base
  show ?case by simp
next
  case (step i)
  have "days_before_year i \<le> days_before_year (i + 1)"
    by (simp add: days_before_year_Suc)
  with step show ?case by linarith
qed

lemma month_cases:
  "1 \<le> m \<Longrightarrow> m \<le> 12 \<Longrightarrow>
   m = 1 \<or> m = 2 \<or> m = 3 \<or> m = 4 \<or> m = 5 \<or> m = 6 \<or> m = 7 \<or> m = 8 \<or> m = 9 \<or> m = 10
     \<or> m = 11 \<or> m = (12::int)"
  by arith

lemma days_before_month_next:
  assumes "1 \<le> m" "m \<le> 12"
  shows "days_before_month y m + days_in_month y m
           = (if m = 12 then 365 + (if is_leap y then 1 else 0) else days_before_month y (m + 1))"
  using month_cases [OF assms]
  by (elim disjE) (simp_all add: days_before_month_def days_in_month_def)

lemma days_before_month_mono:
  assumes "1 \<le> m" "m \<le> m'" "m' \<le> 12"
  shows "days_before_month y m \<le> days_before_month y m'"
  using assms(2,3,1)
proof (induction m' rule: int_ge_induct)
  case base
  show ?case by simp
next
  case (step i)
  have "days_before_month y i + days_in_month y i = days_before_month y (i + 1)"
    using step days_before_month_next [of i y] by simp
  moreover have "0 \<le> days_in_month y i" by (simp add: days_in_month_def)
  ultimately show ?case using step by simp
qed

lemma toordinal_year_bounds:
  assumes "valid_date d"
  shows "days_before_year (year d) < toordinal d" "toordinal d \<le> days_before_year (year d + 1)"
proof -
  have m: "1 \<le> month d" "month d \<le> 12"
    and dd: "1 \<le> day d" "day d \<le> days_in_month (year d) (month d)"
    using assms by (simp_all add: valid_date_def)
  have "0 \<le> days_before_month (year d) (month d)"
    using days_before_month_mono [of 1 "month d" "year d"] m by (simp add: days_before_month_def)
  then show "days_before_year (year d) < toordinal d"
    using dd by (simp add: toordinal_def)
  have "days_before_month (year d) (month d) + day d \<le> 365 + (if is_leap (year d) then 1 else 0)"
  proof (cases "month d = 12")
    case True
    then show ?thesis using days_before_month_next [of 12 "year d"] dd by simp
  next
    case False
    then have "month d + 1 \<le> 12" using m by simp
    then have "days_before_month (year d) (month d + 1) \<le> days_before_month (year d) 12"
      using days_before_month_mono [of "month d + 1" 12 "year d"] m by simp
    moreover have "days_before_month (year d) 12 \<le> 335" by (simp add: days_before_month_def)
    ultimately show ?thesis
      using days_before_month_next [of "month d" "year d"] False m dd by simp
  qed
  then show "toordinal d \<le> days_before_year (year d + 1)"
    by (simp add: toordinal_def days_before_year_Suc)
qed

lemma toordinal_strict_mono:
  assumes "valid_date a" "valid_date b" "date_lt a b"
  shows "toordinal a < toordinal b"
proof -
  consider (y) "year a < year b"
    | (m) "year a = year b" "month a < month b"
    | (d) "year a = year b" "month a = month b" "day a < day b"
    using assms(3) by (auto simp: date_lt_def)
  then show ?thesis
  proof cases
    case y
    then have "days_before_year (year a + 1) \<le> days_before_year (year b)"
      by (simp add: days_before_year_mono)
    then show ?thesis
      using toordinal_year_bounds(2) [OF assms(1)] toordinal_year_bounds(1) [OF assms(2)]
      by linarith
  next
    case m
    have ma: "1 \<le> month a" "month a \<le> 12" "day a \<le> days_in_month (year a) (month a)"
      and mb: "month b \<le> 12" "1 \<le> day b"
      using assms by (simp_all add: valid_date_def)
    have "month a \<noteq> 12" using m mb by simp
    then have "days_before_month (year a) (month a) + days_in_month (year a) (month a)
        = days_before_month (year a) (month a + 1)"
      using days_before_month_next [of "month a" "year a"] ma by simp
    moreover have "days_before_month (year a) (month a + 1) \<le> days_before_month (year a) (month b)"
      using days_before_month_mono [of "month a + 1" "month b" "year a"] m ma mb by simp
    ultimately show ?thesis
      using m ma mb by (simp add: toordinal_def)
  next
    case d
    then show ?thesis by (simp add: toordinal_def)
  qed
qed

lemma toordinal_mono:
  assumes "valid_date a" "valid_date b" "\<not> date_lt b a"
  shows "toordinal a \<le> toordinal b"
proof (cases "date_lt a b")
  case True
  then show ?thesis using toordinal_strict_mono [OF assms(1,2)] by simp
next
  case False
  with assms(3) have "year a = year b \<and> month a = month b \<and> day a = day b"
    by (auto simp: date_lt_def)
  then show ?thesis by (simp add: toordinal_def)
qed

section \<open>Days to the next birthday\<close>

lemma replace_year_Inr:
  "replace_year d y = Inr d' \<Longrightarrow>
   valid_date d' \<and> year d' = y \<and> month d' = month d \<and> day d' = day d"
  by (auto simp: replace_year_def date_new_def valid_date_def split: if_splits)

lemma replace_year_valid:
  "valid_date \<lparr>year = y, month = month d, day = day d\<rparr> \<Longrightarrow>
   replace_year d y = Inr \<lparr>year = y, month = month d, day = day d\<rparr>"
  by (auto simp: replace_year_def date_new_def valid_date_def)

lemma next_birthday_Inr:
  assumes "next_birthday b today = Inr nb"
  shows "valid_date nb \<and> month nb = month b \<and> day nb = day b \<and> \<not> date_lt nb today
    \<and> (year nb = year today
        \<or> (year nb = year today + 1
            \<and> date_lt \<lparr>year = year today, month = month b, day = day b\<rparr> today))"
proof -
  obtain nb0 where r0: "replace_year b (year today) = Inr nb0"
    using assms by (auto simp: next_birthday_def split: sum.splits)
  note p0 = replace_year_Inr [OF r0]
  show ?thesis
  proof (cases "date_lt nb0 today")
    case False
    then have "nb = nb0" using assms r0 by (simp add: next_birthday_def)
    with p0 False show ?thesis by simp
  next
    case True
    then have r1: "replace_year nb0 (year today + 1) = Inr nb"
      using assms r0 by (simp add: next_birthday_def)
    note p1 = replace_year_Inr [OF r1]
    have "nb0 = \<lparr>year = year today, month = month b, day = day b\<rparr>"
      using p0 by simp
    with True p0 p1 show ?thesis by (simp add: date_lt_def)
  qed
qed

lemma next_birthday_least:
  assumes "next_birthday b today = Inr nb"
    and "month x = month b" "day x = day b" "\<not> date_lt x today"
  shows "\<not> date_lt x nb"
  using next_birthday_Inr [OF assms(1)] assms(2-)
  by (auto simp: date_lt_def)

lemma day_fits_every_year:
  assumes "valid_date b" "\<not> (month b = 2 \<and> day b = 29)"
  shows "day b \<le> days_in_month y (month b)"
  using assms by (auto simp: valid_date_def days_in_month_def split: if_splits)

lemma next_birthday_total:
  assumes "valid_date b" "valid_date today" "\<not> (month b = 2 \<and> day b = 29)" "year today < 9999"
  shows "\<exists>nb. next_birthday b today = Inr nb"
proof -
  have v: "1 \<le> month b" "month b \<le> 12" "1 \<le> day b" "1 \<le> year today"
    using assms by (simp_all add: valid_date_def)
  have "valid_date \<lparr>year = year today, month = month b, day = day b\<rparr>"
    and "valid_date \<lparr>year = year today + 1, month = month b, day = day b\<rparr>"
    using v assms(4) day_fits_every_year [OF assms(1,3)] by (simp_all add: valid_date_def)
  then show ?thesis
    using replace_year_valid [of "year today" b]
      replace_year_valid [of "year today + 1" "\<lparr>year = year today, month = month b, day = day b\<rparr>"]
    by (simp add: next_birthday_def)
qed

lemma next_birthday_same_day:
  assumes "valid_date today" "month today = month b" "day today = day b"
  shows "next_birthday b today = Inr today"
proof -
  have "\<lparr>year = year today, month = month b, day = day b\<rparr> = today"
    using assms by simp
  then have "replace_year b (year today) = Inr today"
    using replace_year_valid [of "year today" b] assms(1) by simp
  then show ?thesis by (simp add: next_birthday_def date_lt_def)
qed

lemma days_to_birthday_None_iff: "days_to_birthday r today = Inr None \<longleftrightarrow> birthday r = None"
  by (auto simp: days_to_birthday_def split: option.splits sum.splits)

lemmas date_eval = days_to_birthday_def next_birthday_def replace_year_def date_new_def
  days_in_month_def is_leap_def date_lt_def days_between_def toordinal_def days_before_year_def
  days_before_month_def valid_date_def

text \<open>
  C2 fails on the code. A record whose birthday is 29 February 2000, asked on 1 January
  2025: both dates are dates of the calendar, and \<open>replace(year=2025)\<close> raises
  \<open>ValueError\<close>, so \<open>days_to_birthday\<close> returns no integer.
\<close>

theorem days_to_birthday_feb29_raises:
  "valid_date \<lparr>year = 2000, month = 2, day = 29\<rparr>
   \<and> valid_date \<lparr>year = 2025, month = 1, day = 1\<rparr>
   \<and> days_to_birthday
        (Record_init (lit ''bob'')\<lparr>birthday := Some \<lparr>year = 2000, month = 2, day = 29\<rparr>\<rparr>)
        \<lparr>year = 2025, month = 1, day = 1\<rparr>
      = Inl (ValueError (lit ''day is out of range for month''))"
  by (simp add: date_eval Record_init_def)

text \<open>
  What does hold of \<open>days_to_birthday\<close>. Whenever it returns a number, that is the
  number of days from \<open>today\<close> to the first date on or after \<open>today\<close> that has the
  birthday's month and day, and it is not negative. On the birthday itself the result
  is 0. For every birthday other than 29 February (and \<open>today\<close> before the year 9999)
  a number is returned. For the birthday 01.01.2000 the result is 1 on 31.12.2024 and 0
  on 01.01.2025.
\<close>

lemma days_to_birthday_next_occurrence:
  assumes "birthday r = Some b" "valid_date b" "valid_date today"
  shows
    "(\<forall>n. days_to_birthday r today = Inr (Some n) \<longrightarrow>
        (\<exists>nb. valid_date nb \<and> month nb = month b \<and> day nb = day b \<and> \<not> date_lt nb today
           \<and> (\<forall>x. valid_date x \<and> month x = month b \<and> day x = day b \<and> \<not> date_lt x today
                 \<longrightarrow> \<not> date_lt x nb)
           \<and> n = toordinal nb - toordinal today \<and> 0 \<le> n))
     \<and> (month today = month b \<and> day today = day b \<longrightarrow> days_to_birthday r today = Inr (Some 0))
     \<and> (\<not> (month b = 2 \<and> day b = 29) \<and> year today < 9999 \<longrightarrow>
          (\<exists>n. days_to_birthday r today = Inr (Some n)))
     \<and> days_to_birthday (Record_init nm\<lparr>birthday := Some \<lparr>year = 2000, month = 1, day = 1\<rparr>\<rparr>)
          \<lparr>year = 2024, month = 12, day = 31\<rparr> = Inr (Some 1)
     \<and> days_to_birthday (Record_init nm\<lparr>birthday := Some \<lparr>year = 2000, month = 1, day = 1\<rparr>\<rparr>)
          \<lparr>year = 2025, month = 1, day = 1\<rparr> = Inr (Some 0)"
proof (intro conjI allI impI)
  fix n
  assume "days_to_birthday r today = Inr (Some n)"
  then obtain nb where nb: "next_birthday b today = Inr nb" and n: "n = days_between nb today"
    using assms(1) by (auto simp: days_to_birthday_def split: sum.splits)
  note p = next_birthday_Inr [OF nb]
  have "toordinal today \<le> toordinal nb"
    using toordinal_mono [of today nb] assms(3) p by simp
  with p n next_birthday_least [OF nb]
  show "\<exists>nb. valid_date nb \<and> month nb = month b \<and> day nb = day b \<and> \<not> date_lt nb today
           \<and> (\<forall>x. valid_date x \<and> month x = month b \<and> day x = day b \<and> \<not> date_lt x today
                 \<longrightarrow> \<not> date_lt x nb)
           \<and> n = toordinal nb - toordinal today \<and> 0 \<le> n"
    by (intro exI [of _ nb]) (simp add: days_between_def)
next
  assume "month today = month b \<and> day today = day b"
  then show "days_to_birthday r today = Inr (Some 0)"
    using next_birthday_same_day [of today b] assms(1,3)
    by (simp add: days_to_birthday_def days_between_def)
next
  assume "\<not> (month b = 2 \<and> day b = 29) \<and> year today < 9999"
  then obtain nb where "next_birthday b today = Inr nb"
    using next_birthday_total [OF assms(2,3)] by blast
  then show "\<exists>n. days_to_birthday r today = Inr (Some n)"
    using assms(1) by (simp add: days_to_birthday_def)
next
  show "days_to_birthday (Record_init nm\<lparr>birthday := Some \<lparr>year = 2000, month = 1, day = 1\<rparr>\<rparr>)
          \<lparr>year = 2024, month = 12, day = 31\<rparr> = Inr (Some 1)"
    by (simp add: date_eval Record_init_def)
next
  show "days_to_birthday (Record_init nm\<lparr>birthday := Some \<lparr>year = 2000, month = 1, day = 1\<rparr>\<rparr>)
          \<lparr>year = 2025, month = 1, day = 1\<rparr> = Inr (Some 0)"
    by (simp add: date_eval Record_init_def)
qed

lemma days_to_birthday_next_occurrence_example:
  "birthday (Record_init (lit ''ann'')\<lparr>birthday := Some \<lparr>year = 1990, month = 3, day = 15\<rparr>\<rparr>)
     = Some \<lparr>year = 1990, month = 3, day = 15\<rparr>
   \<and> valid_date \<lparr>year = 1990, month = 3, day = 15\<rparr>
   \<and> valid_date \<lparr>year = 2025, month = 3, day = 10\<rparr>
   \<and> days_to_birthday
        (Record_init (lit ''ann'')\<lparr>birthday := Some \<lparr>year = 1990, month = 3, day = 15\<rparr>\<rparr>)
        \<lparr>year = 2025, month = 3, day = 10\<rparr> = Inr (Some 5)
   \<and> (\<exists>nb. valid_date nb \<and> month nb = 3 \<and> day nb = 15
         \<and> \<not> date_lt nb \<lparr>year = 2025, month = 3, day = 10\<rparr>
         \<and> 5 = toordinal nb - toordinal \<lparr>year = 2025, month = 3, day = 10\<rparr>)
   \<and> valid_date \<lparr>year = 2025, month = 3, day = 15\<rparr>
   \<and> days_to_birthday
        (Record_init (lit ''ann'')\<lparr>birthday := Some \<lparr>year = 1990, month = 3, day = 15\<rparr>\<rparr>)
        \<lparr>year = 2025, month = 3, day = 15\<rparr> = Inr (Some 0)"
proof -
  have b: "valid_date \<lparr>year = 1990, month = 3, day = 15\<rparr>"
    and t: "valid_date \<lparr>year = 2025, month = 3, day = 10\<rparr>"
    and t': "valid_date \<lparr>year = 2025, month = 3, day = 15\<rparr>"
    by (simp_all add: valid_date_def days_in_month_def)
  have r: "birthday (Record_init (lit ''ann'')\<lparr>birthday := Some \<lparr>year = 1990, month = 3, day = 15\<rparr>\<rparr>)
      = Some \<lparr>year = 1990, month = 3, day = 15\<rparr>"
    by simp
  have e: "days_to_birthday
        (Record_init (lit ''ann'')\<lparr>birthday := Some \<lparr>year = 1990, month = 3, day = 15\<rparr>\<rparr>)
        \<lparr>year = 2025, month = 3, day = 10\<rparr> = Inr (Some 5)"
    by (simp add: date_eval Record_init_def)
  show ?thesis
    using days_to_birthday_next_occurrence [OF r b t] days_to_birthday_next_occurrence [OF r b t']
      b t t' e r
    by auto
qed

text \<open>
  C7 fails on the code, by the defect of C2. For the birthday 29 February 2000 and
  \<open>today\<close> = 1 January 2025 the next occurrence of the birthday's month and day on or
  after \<open>today\<close> is 29 February 2028, 1154 days away: there is no 29 February in 2025,
  2026 or 2027. \<open>days_to_birthday\<close> does not compute it: \<open>replace(year=2025)\<close> raises.
\<close>

theorem days_to_birthday_feb29_next_occurrence_missed:
  "valid_date \<lparr>year = 2028, month = 2, day = 29\<rparr>
   \<and> \<not> date_lt \<lparr>year = 2028, month = 2, day = 29\<rparr> \<lparr>year = 2025, month = 1, day = 1\<rparr>
   \<and> \<not> valid_date \<lparr>year = 2025, month = 2, day = 29\<rparr>
   \<and> \<not> valid_date \<lparr>year = 2026, month = 2, day = 29\<rparr>
   \<and> \<not> valid_date \<lparr>year = 2027, month = 2, day = 29\<rparr>
   \<and> days_between \<lparr>year = 2028, month = 2, day = 29\<rparr> \<lparr>year = 2025, month = 1, day = 1\<rparr> = 1154
   \<and> days_to_birthday
        (Record_init (lit ''bob'')\<lparr>birthday := Some \<lparr>year = 2000, month = 2, day = 29\<rparr>\<rparr>)
        \<lparr>year = 2025, month = 1, day = 1\<rparr>
      = Inl (ValueError (lit ''day is out of range for month''))
   \<and> days_to_birthday
        (Record_init (lit ''bob'')\<lparr>birthday := Some \<lparr>year = 2000, month = 2, day = 29\<rparr>\<rparr>)
        \<lparr>year = 2025, month = 1, day = 1\<rparr>
      \<noteq> Inr (Some 1154)"
  by (simp add: date_eval Record_init_def)

section \<open>Parsing a birthday and printing it again\<close>

lemma ascii_digitE:
  assumes "ascii_digit c"
  obtains v where "v < 10" "c = 48 + v"
proof -
  have "c - 48 < 10" "c = 48 + (c - 48)"
    using assms unfolding ascii_digit_def by arith+
  then show ?thesis using that by blast
qed

lemma denoted_dateE:
  assumes "denoted_date s = Some dt"
  obtains d1 d2 m1 m2 y1 y2 y3 y4 where
    "s = [48 + d1, 48 + d2, 46, 48 + m1, 48 + m2, 46, 48 + y1, 48 + y2, 48 + y3, 48 + y4]"
    "d1 < 10" "d2 < 10" "m1 < 10" "m2 < 10" "y1 < 10" "y2 < 10" "y3 < 10" "y4 < 10"
    "dt = \<lparr>year = int (1000 * y1 + 100 * y2 + 10 * y3 + y4), month = int (10 * m1 + m2),
           day = int (10 * d1 + d2)\<rparr>"
    "valid_date dt"
proof -
  from assms obtain c1 c2 c3 c4 c5 c6 c7 c8 where
    s: "s = [c1, c2, 46, c3, c4, 46, c5, c6, c7, c8]"
    and dg: "ascii_digit c1" "ascii_digit c2" "ascii_digit c3" "ascii_digit c4"
      "ascii_digit c5" "ascii_digit c6" "ascii_digit c7" "ascii_digit c8"
    and dt: "dt = \<lparr>year = 1000 * digit_val c5 + 100 * digit_val c6 + 10 * digit_val c7
                              + digit_val c8,
                       month = 10 * digit_val c3 + digit_val c4,
                       day = 10 * digit_val c1 + digit_val c2\<rparr>"
    and v: "valid_date dt"
    by (auto simp: denoted_date_def Let_def split: list.splits if_splits)
  from dg obtain d1 d2 m1 m2 y1 y2 y3 y4 where
    "d1 < 10" "c1 = 48 + d1" "d2 < 10" "c2 = 48 + d2" "m1 < 10" "c3 = 48 + m1"
    "m2 < 10" "c4 = 48 + m2" "y1 < 10" "c5 = 48 + y1" "y2 < 10" "c6 = 48 + y2"
    "y3 < 10" "c7 = 48 + y3" "y4 < 10" "c8 = 48 + y4"
    by (metis ascii_digitE)
  with s dt v show ?thesis
    by (intro that [of d1 d2 m1 m2 y1 y2 y3 y4]) (simp_all add: digit_val_def)
qed

lemma is_decimal_ascii: "v < 10 \<Longrightarrow> is_decimal (48 + v)"
  by (simp add: is_decimal_def in_ranges_def decimal_ranges_def)

lemma decimal_value_ascii: "v < 10 \<Longrightarrow> decimal_value (48 + v) = v"
  by (simp add: decimal_value_def decimal_ranges_def)

lemma py_int_two: "a < 10 \<Longrightarrow> b < 10 \<Longrightarrow> py_int [48 + a, 48 + b] = int (10 * a + b)"
  by (simp add: py_int_def decimal_value_ascii)

lemma py_int_four:
  "a < 10 \<Longrightarrow> b < 10 \<Longrightarrow> c < 10 \<Longrightarrow> d < 10 \<Longrightarrow>
   py_int [48 + a, 48 + b, 48 + c, 48 + d] = int (1000 * a + 100 * b + 10 * c + d)"
  by (simp add: py_int_def decimal_value_ascii)

text \<open>
  On two digits that spell a day from 01 to 31, the alternative of \<open>%d\<close> tried first
  among those that match takes both digits; likewise for a month from 01 to 12.
\<close>

lemma re_d_two:
  assumes "a < 10" "b < 10" "1 \<le> 10 * a + b" "10 * a + b \<le> 31"
  shows "\<exists>t. re_d ((48 + a) # (48 + b) # r) = ([48 + a, 48 + b], r) # t"
proof -
  consider "a = 0" "1 \<le> b" | "a = 1" | "a = 2" | "a = 3" "b \<le> 1"
    using assms by linarith
  then show ?thesis
    using assms(2) by cases (simp_all add: re_d_def ascii_between_def is_decimal_ascii)
qed

lemma re_m_two:
  assumes "a < 10" "b < 10" "1 \<le> 10 * a + b" "10 * a + b \<le> 12"
  shows "\<exists>t. re_m ((48 + a) # (48 + b) # r) = ([48 + a, 48 + b], r) # t"
proof -
  consider "a = 0" "1 \<le> b" | "a = 1" "b \<le> 2"
    using assms by linarith
  then show ?thesis
    using assms(2) by cases (simp_all add: re_m_def ascii_between_def)
qed

lemma re_Y_four:
  "a < 10 \<Longrightarrow> b < 10 \<Longrightarrow> c < 10 \<Longrightarrow> d < 10 \<Longrightarrow>
   re_Y ((48 + a) # (48 + b) # (48 + c) # (48 + d) # r) = Some ([48 + a, 48 + b, 48 + c, 48 + d], r)"
  by (simp add: re_Y_def is_decimal_ascii)

lemma format_regex_match_canonical:
  assumes "d1 < 10" "d2 < 10" "m1 < 10" "m2 < 10" "y1 < 10" "y2 < 10" "y3 < 10" "y4 < 10"
    and "1 \<le> 10 * d1 + d2" "10 * d1 + d2 \<le> 31" "1 \<le> 10 * m1 + m2" "10 * m1 + m2 \<le> 12"
  shows "format_regex_match
           [48 + d1, 48 + d2, 46, 48 + m1, 48 + m2, 46, 48 + y1, 48 + y2, 48 + y3, 48 + y4]
         = Some (([48 + d1, 48 + d2], [48 + m1, 48 + m2], [48 + y1, 48 + y2, 48 + y3, 48 + y4]), [])"
proof -
  obtain td where
    td: "re_d [48 + d1, 48 + d2, 46, 48 + m1, 48 + m2, 46, 48 + y1, 48 + y2, 48 + y3, 48 + y4]
      = ([48 + d1, 48 + d2], [46, 48 + m1, 48 + m2, 46, 48 + y1, 48 + y2, 48 + y3, 48 + y4]) # td"
    using re_d_two [OF assms(1,2,9,10)] by blast
  obtain tm where
    tm: "re_m [48 + m1, 48 + m2, 46, 48 + y1, 48 + y2, 48 + y3, 48 + y4]
      = ([48 + m1, 48 + m2], [46, 48 + y1, 48 + y2, 48 + y3, 48 + y4]) # tm"
    using re_m_two [OF assms(3,4,11,12)] by blast
  show ?thesis
    unfolding format_regex_match_def td
    by (simp add: re_dot_def tm re_Y_four assms)
qed

lemma days_in_month_le_31: "days_in_month y m \<le> 31"
  by (simp add: days_in_month_def)

lemma two_digits_canonical:
  assumes "a < 10" "b < 10"
  shows "two_digits (int (10 * a + b)) = [48 + a, 48 + b]"
  using assms by (simp add: two_digits_def del: of_nat_add of_nat_mult)

lemma mod_10_last: "d < 10 \<Longrightarrow> (10 * k + d) mod 10 = (d::nat)"
  by (simp only: mod_mult_self4 mod_less)

lemma four_digits_canonical:
  assumes "a < 10" "b < 10" "c < 10" "d < 10"
  shows "four_digits (int (1000 * a + 100 * b + 10 * c + d)) = [48 + a, 48 + b, 48 + c, 48 + d]"
proof -
  define n where "n = 1000 * a + 100 * b + 10 * c + d"
  have d1000: "n div 1000 = a"
    using assms unfolding n_def by (intro div_nat_eqI) simp_all
  have "n div 100 = 10 * a + b"
    using assms unfolding n_def by (intro div_nat_eqI) simp_all
  then have d100: "n div 100 mod 10 = b"
    using assms(2) by (simp only: mod_10_last)
  have "n div 10 = 10 * (10 * a + b) + c"
    using assms unfolding n_def by (intro div_nat_eqI) simp_all
  then have d10: "n div 10 mod 10 = c"
    using assms(3) by (simp only: mod_10_last)
  have "n = 10 * (100 * a + 10 * b + c) + d"
    unfolding n_def by simp
  then have d1: "n mod 10 = d"
    using assms(4) by (simp only: mod_10_last)
  show ?thesis
    unfolding n_def [symmetric] by (simp add: four_digits_def d1000 d100 d10 d1)
qed

text \<open>From the year 1000 on, the digits of the year are four: padding changes nothing.\<close>

lemma str_nat_four_digits:
  assumes "1000 \<le> n" "n \<le> 9999"
  shows "str_nat n = four_digits (int n)"
proof -
  have "n div 1000 < 10" "10 \<le> n div 100" "10 \<le> n div 10" "10 \<le> n"
    using assms by arith+
  note bounds = this
  have a: "str_nat (n div 1000) = [48 + n div 1000]"
    using bounds by (subst str_nat.simps) simp
  have "n div 100 div 10 = n div 1000" by (simp add: div_mult2_eq [symmetric])
  then have b: "str_nat (n div 100) = [48 + n div 1000, 48 + n div 100 mod 10]"
    using bounds a by (subst str_nat.simps) simp
  have "n div 10 div 10 = n div 100" by (simp add: div_mult2_eq [symmetric])
  then have c: "str_nat (n div 10) = [48 + n div 1000, 48 + n div 100 mod 10, 48 + n div 10 mod 10]"
    using bounds b by (subst str_nat.simps) simp
  show ?thesis
    using bounds c by (subst str_nat.simps) (simp add: four_digits_def)
qed

lemma Birthday_init_denoted:
  assumes "denoted_date s = Some dt"
  shows "Birthday_init s = Inr dt"
proof -
  from assms obtain d1 d2 m1 m2 y1 y2 y3 y4 where
    s: "s = [48 + d1, 48 + d2, 46, 48 + m1, 48 + m2, 46, 48 + y1, 48 + y2, 48 + y3, 48 + y4]"
    and dg: "d1 < 10" "d2 < 10" "m1 < 10" "m2 < 10" "y1 < 10" "y2 < 10" "y3 < 10" "y4 < 10"
    and dt: "dt = \<lparr>year = int (1000 * y1 + 100 * y2 + 10 * y3 + y4), month = int (10 * m1 + m2),
           day = int (10 * d1 + d2)\<rparr>"
    and v: "valid_date dt"
    by (rule denoted_dateE)
  have rng: "1 \<le> 10 * d1 + d2" "10 * d1 + d2 \<le> 31" "1 \<le> 10 * m1 + m2" "10 * m1 + m2 \<le> 12"
    using v days_in_month_le_31 [of "year dt" "month dt"] unfolding dt valid_date_def
    by simp_all
  have "strptime s = date_new (year dt) (month dt) (day dt)"
    unfolding strptime_def s format_regex_match_canonical [OF dg rng]
    by (simp add: py_int_two py_int_four dg dt)
  also have "\<dots> = Inr dt"
    using v by (auto simp: date_new_def valid_date_def)
  finally show ?thesis
    by (simp add: Birthday_init_def)
qed

lemma strftime_denoted:
  assumes "denoted_date s = Some dt" "pad_year \<or> 1000 \<le> year dt"
  shows "strftime pad_year dt = s"
proof -
  from assms(1) obtain d1 d2 m1 m2 y1 y2 y3 y4 where
    s: "s = [48 + d1, 48 + d2, 46, 48 + m1, 48 + m2, 46, 48 + y1, 48 + y2, 48 + y3, 48 + y4]"
    and dg: "d1 < 10" "d2 < 10" "m1 < 10" "m2 < 10" "y1 < 10" "y2 < 10" "y3 < 10" "y4 < 10"
    and dt: "dt = \<lparr>year = int (1000 * y1 + 100 * y2 + 10 * y3 + y4), month = int (10 * m1 + m2),
           day = int (10 * d1 + d2)\<rparr>"
    and v: "valid_date dt"
    by (rule denoted_dateE)
  have padded: "two_digits (day dt) @ lit ''.'' @ two_digits (month dt) @ lit ''.''
      @ four_digits (year dt) = s"
    unfolding dt s
    by (simp add: two_digits_canonical four_digits_canonical dg lit_def
        del: of_nat_add of_nat_mult)
  show ?thesis
  proof (cases pad_year)
    case True
    then show ?thesis using padded by (simp add: strftime_def)
  next
    case False
    with assms(2) have "1000 \<le> year dt" by simp
    moreover have "year dt \<le> 9999" using v by (simp add: valid_date_def)
    ultimately have "str_nat (nat (year dt)) = four_digits (year dt)"
      using str_nat_four_digits [of "nat (year dt)"] by simp
    then show ?thesis using False padded by (simp add: strftime_def)
  qed
qed

text \<open>
  C8, as the code has it. For every string \<open>s\<close> of the form \<open>DD.MM.YYYY\<close> that denotes a
  date of the calendar, \<open>Birthday(s)\<close> succeeds with that date, and
  \<open>strftime("%d.%m.%Y")\<close> gives \<open>s\<close> back when the year is at least 1000, and for
  earlier years where the platform pads \<open>%Y\<close> to four digits.
\<close>

theorem Birthday_roundtrip:
  assumes "denoted_date s = Some dt"
  shows "Birthday_init s = Inr dt
         \<and> (pad_year \<or> 1000 \<le> year dt \<longrightarrow> strftime pad_year dt = s)"
  using assms by (simp add: Birthday_init_denoted strftime_denoted)

theorem Birthday_roundtrip_witness:
  "denoted_date (lit ''29.02.2024'') = Some \<lparr>year = 2024, month = 2, day = 29\<rparr>
   \<and> Birthday_init (lit ''29.02.2024'') = Inr \<lparr>year = 2024, month = 2, day = 29\<rparr>
   \<and> (1000::int) \<le> 2024
   \<and> strftime False \<lparr>year = 2024, month = 2, day = 29\<rparr> = lit ''29.02.2024''
   \<and> strftime True \<lparr>year = 2024, month = 2, day = 29\<rparr> = lit ''29.02.2024''"
proof -
  have d: "denoted_date (lit ''29.02.2024'') = Some \<lparr>year = 2024, month = 2, day = 29\<rparr>"
    by (simp add: denoted_date_def lit_def ascii_digit_def digit_val_def valid_date_def
        days_in_month_def is_leap_def)
  show ?thesis
    using d Birthday_roundtrip [OF d, of False] Birthday_roundtrip [OF d, of True] by simp
qed

text \<open>
  C8 as stated fails where \<open>%Y\<close> is not padded: \<open>01.01.0999\<close> denotes 1 January 999 and is
  parsed to it, and is printed as \<open>01.01.999\<close>.
\<close>

theorem Birthday_roundtrip_counterexample:
  "denoted_date (lit ''01.01.0999'') = Some \<lparr>year = 999, month = 1, day = 1\<rparr>
   \<and> Birthday_init (lit ''01.01.0999'') = Inr \<lparr>year = 999, month = 1, day = 1\<rparr>
   \<and> strftime False \<lparr>year = 999, month = 1, day = 1\<rparr> = lit ''01.01.999''
   \<and> lit ''01.01.999'' \<noteq> lit ''01.01.0999''"
proof -
  have d: "denoted_date (lit ''01.01.0999'') = Some \<lparr>year = 999, month = 1, day = 1\<rparr>"
    by (simp add: denoted_date_def lit_def ascii_digit_def digit_val_def valid_date_def
        days_in_month_def is_leap_def)
  have "strftime False \<lparr>year = 999, month = 1, day = 1\<rparr> = lit ''01.01.999''"
    by (simp add: strftime_def two_digits_def str_nat.simps lit_def)
  then show ?thesis
    using d Birthday_init_denoted [OF d] by (simp add: lit_def)
qed

section \<open>The address book\<close>


lemma update_same:
  "map_of al k = Some v \<Longrightarrow> AList.update k v al = al"
  by (induction al) (auto split: if_splits)

lemma find_record_add_record:
  "find_record (add_record r book) n = (if n = name r then Some r else find_record book n)"
  by (simp add: find_record_def add_record_def update_conv')

lemma distinct_add_record:
  "distinct (map fst book) \<Longrightarrow> distinct (map fst (add_record r book))"
  by (simp add: add_record_def distinct_update)

lemma distinct_delete_book:
  "distinct (map fst book) \<Longrightarrow> distinct (map fst (delete n book))"
  by (simp add: delete_def distinct_delete)

lemma keys_named_add_record:
  "\<forall>(k, v) \<in> set book. name v = k \<Longrightarrow> \<forall>(k, v) \<in> set (add_record r book). name v = k"
  unfolding add_record_def
  by (induction book) (auto split: if_splits)

lemma keys_named_delete:
  "\<forall>(k, v) \<in> set book. name v = k \<Longrightarrow> \<forall>(k, v) \<in> set (delete n book). name v = k"
  by (auto simp: delete_def AList.delete_eq)

lemma apply_ops_invariant:
  "distinct (map fst book) \<Longrightarrow> \<forall>(k, v) \<in> set book. name v = k \<Longrightarrow>
   distinct (map fst (apply_ops ops book)) \<and> (\<forall>(k, v) \<in> set (apply_ops ops book). name v = k)"
proof (induction ops book rule: apply_ops.induct)
  case (1 book)
  then show ?case by simp
next
  case (2 r ops book)
  then show ?case
    using distinct_add_record [of book r] keys_named_add_record [of book r] by simp
next
  case (3 n ops book)
  then show ?case
    using distinct_delete_book [of book n] keys_named_delete [of book n] by simp
qed

lemma distinct_one_entry:
  "distinct (map fst al) \<Longrightarrow> map_of al k = Some v \<Longrightarrow> filter (\<lambda>p. fst p = k) al = [(k, v)]"
proof (induction al)
  case Nil
  then show ?case by simp
next
  case (Cons p al)
  show ?case
  proof (cases "fst p = k")
    case True
    then have "k \<notin> fst ` set al" using Cons.prems(1) by auto
    then have "filter (\<lambda>p. fst p = k) al = []"
      by (auto simp: filter_empty_conv)
    with True Cons.prems(2) show ?thesis by (cases p) simp
  next
    case False
    with Cons show ?thesis by (cases p) simp
  qed
qed

lemma distinct_at_most_one:
  "distinct (map fst al) \<Longrightarrow> length (filter (\<lambda>p. fst p = k) al) \<le> 1"
proof (cases "map_of al k")
  case None
  then have "k \<notin> fst ` set al" by (simp add: map_of_eq_None_iff)
  then have "filter (\<lambda>p. fst p = k) al = []" by (auto simp: filter_empty_conv)
  then show ?thesis by simp
next
  case (Some v)
  assume "distinct (map fst al)"
  then show ?thesis using distinct_one_entry [OF _ Some] by simp
qed

text \<open>
  C4. \<open>add_record\<close> is a total function: storing under a string key raises nothing.
  In a book whose keys are distinct, as those of a \<open>dict\<close> are, the record is afterwards
  found under its name, the other names are untouched and the keys stay distinct; adding
  a second record of the same name leaves one entry under that name, the second record.
  Every book built from the empty book by \<open>add_record\<close> and \<open>delete\<close> has distinct keys,
  each record under its own name, and so at most one record of any name.
\<close>

theorem add_record_upsert:
  assumes "distinct (map fst book)"
  shows "find_record (add_record r book) (name r) = Some r
    \<and> (\<forall>n. n \<noteq> name r \<longrightarrow> find_record (add_record r book) n = find_record book n)
    \<and> distinct (map fst (add_record r book))
    \<and> (name r2 = name r \<longrightarrow>
          filter (\<lambda>p. fst p = name r) (add_record r2 (add_record r book)) = [(name r, r2)])
    \<and> distinct (map fst (apply_ops ops []))
    \<and> (\<forall>(k, v) \<in> set (apply_ops ops []). name v = k)
    \<and> (\<forall>n. length (filter (\<lambda>p. name (snd p) = n) (apply_ops ops [])) \<le> 1)"
proof (intro conjI allI impI)
  show "find_record (add_record r book) (name r) = Some r"
    by (simp add: find_record_add_record)
next
  fix n assume "n \<noteq> name r"
  then show "find_record (add_record r book) n = find_record book n"
    by (simp add: find_record_add_record)
next
  show "distinct (map fst (add_record r book))"
    using assms by (rule distinct_add_record)
next
  assume same: "name r2 = name r"
  have "distinct (map fst (add_record r2 (add_record r book)))"
    using assms by (intro distinct_add_record)
  moreover have "map_of (add_record r2 (add_record r book)) (name r) = Some r2"
    using find_record_add_record [of r2 "add_record r book" "name r"] same
    by (simp add: find_record_def)
  ultimately show "filter (\<lambda>p. fst p = name r) (add_record r2 (add_record r book)) = [(name r, r2)]"
    by (rule distinct_one_entry)
next
  note inv = apply_ops_invariant [of "[]" ops]
  show "distinct (map fst (apply_ops ops []))" using inv by simp
  show "\<forall>(k, v) \<in> set (apply_ops ops []). name v = k" using inv by simp
  fix n
  have "filter (\<lambda>p. name (snd p) = n) (apply_ops ops []) = filter (\<lambda>p. fst p = n) (apply_ops ops [])"
    using inv by (intro filter_cong) auto
  then show "length (filter (\<lambda>p. name (snd p) = n) (apply_ops ops [])) \<le> 1"
    using distinct_at_most_one [of "apply_ops ops []" n] inv by simp
qed

theorem add_record_upsert_witness:
  "distinct (map fst [(lit ''ann'', Record_init (lit ''ann''))])
   \<and> find_record (add_record (Record_init (lit ''bob'')) [(lit ''ann'', Record_init (lit ''ann''))])
        (lit ''bob'') = Some (Record_init (lit ''bob''))
   \<and> name (Record_init (lit ''bob'')\<lparr>phones := [lit ''1234567890'']\<rparr>) = name (Record_init (lit ''bob''))
   \<and> filter (\<lambda>p. fst p = lit ''bob'')
        (add_record (Record_init (lit ''bob'')\<lparr>phones := [lit ''1234567890'']\<rparr>)
           (add_record (Record_init (lit ''bob'')) [(lit ''ann'', Record_init (lit ''ann''))]))
      = [(lit ''bob'', Record_init (lit ''bob'')\<lparr>phones := [lit ''1234567890'']\<rparr>)]
   \<and> distinct (map fst (apply_ops [AddRecord (Record_init (lit ''bob'')), Delete (lit ''ann''),
        AddRecord (Record_init (lit ''bob''))] []))"
proof -
  have d: "distinct (map fst [(lit ''ann'', Record_init (lit ''ann''))])" by simp
  have n: "name (Record_init (lit ''bob'')\<lparr>phones := [lit ''1234567890'']\<rparr>) = name (Record_init (lit ''bob''))"
    "name (Record_init (lit ''bob'')) = lit ''bob''"
    by (simp_all add: Record_init_def)
  show ?thesis
    using add_record_upsert [OF d, of "Record_init (lit ''bob'')"
        "Record_init (lit ''bob'')\<lparr>phones := [lit ''1234567890'']\<rparr>"
        "[AddRecord (Record_init (lit ''bob'')), Delete (lit ''ann''), AddRecord (Record_init (lit ''bob''))]"]
      n d
    by simp
qed

section \<open>Upcoming birthdays\<close>

text \<open>
  When \<open>replace\<close> raises for no record of the book, the loop returns the entries of the
  records whose next birthday is 0 to 7 days away, in the order of the book.
\<close>

lemma upcoming_entry_iff:
  "(\<exists>e. upcoming_entry pad_year today r = Some e)
     \<longleftrightarrow> (\<exists>d. days_to_birthday r today = Inr (Some d) \<and> 0 \<le> d \<and> d \<le> 7)"
  by (auto simp: upcoming_entry_def days_to_birthday_def split: option.splits sum.splits)

lemma upcoming_loop_defined:
  assumes "\<forall>r \<in> set recs. \<forall>b. birthday r = Some b \<longrightarrow> (\<exists>nb. next_birthday b today = Inr nb)"
  shows "upcoming_loop pad_year today recs upcoming
     = Inr (upcoming @ List.map_filter (upcoming_entry pad_year today) recs)"
  using assms
proof (induction recs arbitrary: upcoming)
  case Nil
  show ?case by (simp add: List.map_filter_simps)
next
  case (Cons r recs)
  show ?case
  proof (cases "birthday r")
    case None
    then show ?thesis
      using Cons by (simp add: List.map_filter_simps upcoming_entry_def)
  next
    case (Some b)
    then obtain nb where "next_birthday b today = Inr nb"
      using Cons.prems by auto
    with Some show ?thesis
      using Cons by (simp add: List.map_filter_simps upcoming_entry_def Let_def)
  qed
qed

lemma get_upcoming_birthdays_defined:
  assumes "\<forall>(k, r) \<in> set book. \<forall>b. birthday r = Some b \<longrightarrow> (\<exists>nb. next_birthday b today = Inr nb)"
  shows "get_upcoming_birthdays pad_year book today
     = Inr (List.map_filter (upcoming_entry pad_year today) (map snd book))"
proof -
  have "\<forall>r \<in> set (map snd book). \<forall>b. birthday r = Some b
      \<longrightarrow> (\<exists>nb. next_birthday b today = Inr nb)"
    using assms by fastforce
  then show ?thesis
    using upcoming_loop_defined [of "map snd book" today pad_year "[]"]
    by (simp add: get_upcoming_birthdays_def)
qed

text \<open>
  C3 fails on the code, by the defect of C2. On 1 January 2025 the next birthday of
  \<open>ann\<close> (4 January) is 3 days away, and the book holding \<open>ann\<close> alone reports her. With
  \<open>bob\<close>, born on 29 February 2000, stored before her, \<open>replace(year=2025)\<close> raises and
  the call returns no list at all.
\<close>

theorem get_upcoming_birthdays_feb29_raises:
  "days_to_birthday
      (Record_init (lit ''ann'')\<lparr>birthday := Some \<lparr>year = 1990, month = 1, day = 4\<rparr>\<rparr>)
      \<lparr>year = 2025, month = 1, day = 1\<rparr> = Inr (Some 3)
   \<and> get_upcoming_birthdays False
        [(lit ''ann'', Record_init (lit ''ann'')\<lparr>birthday := Some \<lparr>year = 1990, month = 1, day = 4\<rparr>\<rparr>)]
        \<lparr>year = 2025, month = 1, day = 1\<rparr>
      = Inr [(lit ''ann'', lit ''04.01.2025'')]
   \<and> get_upcoming_birthdays False
        [(lit ''bob'', Record_init (lit ''bob'')\<lparr>birthday := Some \<lparr>year = 2000, month = 2, day = 29\<rparr>\<rparr>),
         (lit ''ann'', Record_init (lit ''ann'')\<lparr>birthday := Some \<lparr>year = 1990, month = 1, day = 4\<rparr>\<rparr>)]
        \<lparr>year = 2025, month = 1, day = 1\<rparr>
      = Inl (ValueError (lit ''day is out of range for month''))"
  by (simp add: get_upcoming_birthdays_def date_eval Record_init_def strftime_def two_digits_def
      str_nat.simps lit_def)

section \<open>Command handlers\<close>





text \<open>
  What each handler answers to too few arguments: the two that index \<open>args[0]\<close> give
  the message of the \<open>IndexError\<close> branch, the three that unpack \<open>args\<close> give the text
  of the \<open>ValueError\<close> of the unpacking. A contact that is not in the book is reported
  through the \<open>AttributeError\<close> branch.
\<close>

lemma too_few_arguments:
  "show_phone [] book = (not_enough_arguments_msg, book)"
  "show_birthday pad_year [] book = (not_enough_arguments_msg, book)"
  "length args < 2 \<Longrightarrow>
     add_contact args book = (lit ''Error: '' @ unpack_at_least_msg 2 (length args), book)"
  "length args < 3 \<Longrightarrow>
     change_contact args book = (lit ''Error: '' @ unpack_at_least_msg 3 (length args), book)"
  "length args \<noteq> 2 \<Longrightarrow>
     add_birthday_cmd args book = (lit ''Error: '' @ unpack_exact_msg 2 (length args), book)"
  by (auto simp: show_phone_def show_phone_func_def show_birthday_def show_birthday_func_def
      add_contact_def add_contact_func_def change_contact_def change_contact_func_def
      add_birthday_cmd_def add_birthday_func_def input_error_def not_enough_arguments_msg_def
      split: list.splits)

lemma missing_contact:
  assumes "find_record book n = None"
  shows "show_phone (n # rest) book = (lit ''Error: Contact not found. Please add it first.'', book)"
    and "show_birthday pad_year (n # rest) book
           = (lit ''Error: Contact not found. Please add it first.'', book)"
    and "change_contact (n # old_phone # new_phone # rest) book
           = (lit ''Error: Contact not found. Please add it first.'', book)"
  using assms
  by (simp_all add: show_phone_def show_phone_func_def show_birthday_def show_birthday_func_def
      change_contact_def change_contact_func_def input_error_def)

lemma Birthday_init_error:
  "Birthday_init v = Inl e \<Longrightarrow> e = ValueError invalid_date_msg"
  by (auto simp: Birthday_init_def strptime_def date_new_def
      split: sum.splits error.splits option.splits prod.splits if_splits)

text \<open>
  A failed validation is reported with the text of the validator, also for a contact
  that exists.
\<close>

lemma validation_messages:
  "find_record book n = Some r \<Longrightarrow> phone \<noteq> [] \<Longrightarrow> \<not> Phone_validate phone \<Longrightarrow>
     add_contact (n # phone # rest) book = (lit ''Error: '' @ invalid_phone_msg, book)"
  "find_record book n = Some r \<Longrightarrow> old_phone \<in> set (phones r) \<Longrightarrow> \<not> Phone_validate new_phone \<Longrightarrow>
     change_contact (n # old_phone # new_phone # rest) book
       = (lit ''Error: '' @ invalid_phone_msg, book)"
  "find_record book n = Some r \<Longrightarrow> Birthday_init bday = Inl e \<Longrightarrow>
     add_birthday_cmd [n, bday] book = (lit ''Error: '' @ invalid_date_msg, book)"
proof -
  assume f: "find_record book n = Some r"
  then have same: "AList.update n r book = book"
    by (simp add: find_record_def update_same)
  {
    assume "phone \<noteq> []" "\<not> Phone_validate phone"
    then show "add_contact (n # phone # rest) book = (lit ''Error: '' @ invalid_phone_msg, book)"
      using f same
      by (simp add: add_contact_def add_contact_func_def add_phone_def Phone_init_def
          input_error_def)
  }
  {
    assume "old_phone \<in> set (phones r)" "\<not> Phone_validate new_phone"
    then obtain pre post where "phones r = pre @ old_phone # post" "old_phone \<notin> set pre"
      by (meson split_list_first)
    then have "edit_phone r old_phone new_phone = (Inl (ValueError invalid_phone_msg), r)"
      using \<open>\<not> Phone_validate new_phone\<close> by (simp add: edit_phone_present)
    then show "change_contact (n # old_phone # new_phone # rest) book
        = (lit ''Error: '' @ invalid_phone_msg, book)"
      using f same by (simp add: change_contact_def change_contact_func_def input_error_def)
  }
  {
    assume "Birthday_init bday = Inl e"
    then have "Birthday_init bday = Inl (ValueError invalid_date_msg)"
      using Birthday_init_error by blast
    then show "add_birthday_cmd [n, bday] book = (lit ''Error: '' @ invalid_date_msg, book)"
      using f same
      by (simp add: add_birthday_cmd_def add_birthday_func_def add_birthday_def input_error_def)
  }
qed

text \<open>
  C6 fails on the code. \<open>add alice\<close> lacks the phone; the unpacking
  \<open>name, phone, *_ = args\<close> raises \<open>ValueError\<close>, not \<open>IndexError\<close>, and the line printed
  is the text of that error, not the ``not enough arguments'' message that
  \<open>input_error\<close> has for a missing argument and that \<open>phone\<close> without a name prints.
  \<open>change\<close> and \<open>add-birthday\<close> do the same.
\<close>

theorem add_contact_missing_phone_message:
  "add_contact [lit ''alice''] []
     = (lit ''Error: not enough values to unpack (expected at least 2, got 1)'', [])
   \<and> main_step False \<lparr>year = 2025, month = 1, day = 1\<rparr> (lit ''add'') [lit ''alice''] []
     = ((lit ''Error: not enough values to unpack (expected at least 2, got 1)'', []), True)
   \<and> lit ''Error: not enough values to unpack (expected at least 2, got 1)''
       \<noteq> not_enough_arguments_msg
   \<and> change_contact [lit ''alice'', lit ''1111111111''] []
     = (lit ''Error: not enough values to unpack (expected at least 3, got 2)'', [])
   \<and> add_birthday_cmd [lit ''alice''] []
     = (lit ''Error: not enough values to unpack (expected 2, got 1)'', [])
   \<and> show_phone [] [] = (not_enough_arguments_msg, [])"
  by (simp add: main_step_def add_contact_def add_contact_func_def change_contact_def
      change_contact_func_def add_birthday_cmd_def add_birthday_func_def show_phone_def
      show_phone_func_def input_error_def unpack_at_least_msg_def unpack_exact_msg_def
      not_enough_arguments_msg_def str_nat.simps lit_def)



end
